theory Spec2Isabelle
  imports Main "HOL-Library.Finite_Map"
begin

section \<open>The global hotkey engine of csstatstracker\<close>

text \<open>
  A shallow embedding of package \<open>hotkey\<close> (the handler, its two platform key
  translators) and of \<open>ui.FormatHotkeys\<close>. Go strings are byte strings.
\<close>

subsection \<open>Strings\<close>

definition toLower_char :: "char \<Rightarrow> char" where
  "toLower_char c =
     (let n = (of_char c :: nat) in if 65 \<le> n \<and> n \<le> 90 then char_of (n + 32) else c)"

definition toUpper_char :: "char \<Rightarrow> char" where
  "toUpper_char c =
     (let n = (of_char c :: nat) in if 97 \<le> n \<and> n \<le> 122 then char_of (n - 32) else c)"

text \<open>
  \<open>strings.ToLower\<close> first scans the string: when every byte is below 128 (ASCII) it
  lowercases the letters \<open>A\<close> to \<open>Z\<close> byte by byte, which is \<open>asciiLower\<close>.
  Otherwise it returns \<open>strings.Map(unicode.ToLower, s)\<close>, which decodes UTF-8 and
  maps each rune with the Unicode case tables of the Go standard library. Those tables
  are not part of this repository: the function \<open>uLower\<close> stands for that second
  path, and it is a parameter of \<open>ToLower\<close> and of every function that calls it.
\<close>

definition isASCII :: "string \<Rightarrow> bool" where
  "isASCII s = list_all (\<lambda>c. (of_char c :: nat) < 128) s"

definition asciiLower :: "string \<Rightarrow> string" where
  "asciiLower s = map toLower_char s"

definition ToLower :: "(string \<Rightarrow> string) \<Rightarrow> string \<Rightarrow> string" where
  "ToLower uLower s = (if isASCII s then asciiLower s else uLower s)"

text \<open>
  The example runs below use ASCII key names only, so that \<open>ToLower\<close> never takes its
  second path in them (lemma \<open>ToLower_ascii\<close>); they pass this function for it.
\<close>

definition noUnicodeLower :: "string \<Rightarrow> string" where
  "noUnicodeLower s = s"

text \<open>
  \<open>strings.ToUpper\<close> on ASCII strings, where it uppercases the letters \<open>a\<close> to
  \<open>z\<close> byte by byte; the Windows translator applies it to one printable ASCII
  character only.
\<close>

definition ToUpper :: "string \<Rightarrow> string" where
  "ToUpper s = map toUpper_char s"

subsection \<open>Data model\<close>

datatype ActionType =
    ActionNone
  | ActionIncrementCT
  | ActionDecrementCT
  | ActionIncrementT
  | ActionDecrementT
  | ActionReset
  | ActionSelectCT
  | ActionSelectT
  | ActionSwapTeams

record Bindings =
  IncrementCT :: "string list"
  DecrementCT :: "string list"
  IncrementT :: "string list"
  DecrementT :: "string list"
  Reset :: "string list"
  SelectCT :: "string list"
  SelectT :: "string list"
  SwapTeams :: "string list"

text \<open>
  A \<open>time.Time\<close> is a count of nanoseconds on the clock that \<open>time.Now\<close> reads; the
  zero \<open>Time\<close> is 0. A \<open>time.Duration\<close> is an \<open>int64\<close> of nanoseconds, and
  \<open>Time.Sub\<close> saturates at its two ends.
\<close>

type_synonym time = int

definition Millisecond :: int where
  "Millisecond = 1000000"

definition maxDuration :: int where
  "maxDuration = 2 ^ 63 - 1"

definition minDuration :: int where
  "minDuration = - (2 ^ 63)"

definition time_Since :: "time \<Rightarrow> time \<Rightarrow> int" where
  "time_Since now t =
     (let d = now - t in
      if d > maxDuration then maxDuration else if d < minDuration then minDuration else d)"

text \<open>
  A buffered channel of actions: its capacity and the actions sent and not yet received,
  oldest first.
\<close>

record ActionChan =
  cap :: nat
  buf :: "ActionType list"

text \<open>
  The handler. \<open>pressedKeys\<close> is the Go \<open>map[string]bool\<close>, a finite map;
  \<open>hookChan\<close>, the event channel of the keyboard hook library, is represented by the
  events that the environment feeds to the handler (see \<open>step\<close> below).
\<close>

record Handler =
  bindings :: Bindings
  pressedKeys :: "(string, bool) fmap"
  lastActionTime :: time
  hookRunning :: bool
  actionChan :: ActionChan

definition NewHandler :: "Bindings \<Rightarrow> Handler" where
  "NewHandler b =
     \<lparr>bindings = b, pressedKeys = fmempty, lastActionTime = 0, hookRunning = False,
      actionChan = \<lparr>cap = 10, buf = []\<rparr>\<rparr>"

text \<open>\<open>defaultHotkeys\<close> of \<open>config/defaults_linux.go\<close> and \<open>config/defaults_windows.go\<close>.\<close>

definition defaultHotkeys_linux :: Bindings where
  "defaultHotkeys_linux =
     \<lparr>IncrementCT = [''Numpad1'', ''NumpadAdd''],
      DecrementCT = [''Numpad1'', ''NumpadSubtract''],
      IncrementT = [''Numpad2'', ''NumpadAdd''],
      DecrementT = [''Numpad2'', ''NumpadSubtract''],
      Reset = [''Numpad0'', ''NumpadEnter''],
      SelectCT = [''LeftControl'', ''c''],
      SelectT = [''LeftControl'', ''t''],
      SwapTeams = [''LeftControl'', ''s'']\<rparr>"

definition defaultHotkeys_windows :: Bindings where
  "defaultHotkeys_windows =
     \<lparr>IncrementCT = [''1'', ''+''],
      DecrementCT = [''1'', ''-''],
      IncrementT = [''2'', ''+''],
      DecrementT = [''2'', ''-''],
      Reset = [''0'', ''Return''],
      SelectCT = [''LeftControl'', ''C''],
      SelectT = [''LeftControl'', ''T''],
      SwapTeams = [''LeftControl'', ''S'']\<rparr>"

definition UpdateBindings :: "Bindings \<Rightarrow> Handler \<Rightarrow> Handler" where
  "UpdateBindings b h = h\<lparr>bindings := b\<rparr>"

subsection \<open>Combo matching\<close>

text \<open>
  The inner loop of \<open>matchesCombo\<close> ranges over the keys of the map and sets
  \<open>found\<close> when one of them equals the combo key after lowercasing both.
\<close>

definition keyFound :: "(string \<Rightarrow> string) \<Rightarrow> (string, bool) fmap \<Rightarrow> string \<Rightarrow> bool" where
  "keyFound uLower pressed key =
     (let keyLower = ToLower uLower key in
      \<exists>pressedKey |\<in>| fmdom pressed. ToLower uLower pressedKey = keyLower)"

text \<open>The outer loop: it returns false at the first combo key that is not found.\<close>

fun allKeysFound :: "(string \<Rightarrow> string) \<Rightarrow> (string, bool) fmap \<Rightarrow> string list \<Rightarrow> bool" where
  "allKeysFound uLower pressed [] = True"
| "allKeysFound uLower pressed (key # comboKeys) =
     (if \<not> keyFound uLower pressed key then False else allKeysFound uLower pressed comboKeys)"

definition matchesCombo :: "(string \<Rightarrow> string) \<Rightarrow> Handler \<Rightarrow> string list \<Rightarrow> bool" where
  "matchesCombo uLower h comboKeys =
     (if \<not> allKeysFound uLower (pressedKeys h) comboKeys then False
      else fcard (fmdom (pressedKeys h)) = length comboKeys)"

subsection \<open>Key events\<close>

text \<open>The if / else-if chain of \<open>handleKeyDown\<close> that picks the action.\<close>

definition checkCombos :: "(string \<Rightarrow> string) \<Rightarrow> Handler \<Rightarrow> ActionType" where
  "checkCombos uLower h =
     (if matchesCombo uLower h (IncrementCT (bindings h)) then ActionIncrementCT
      else if matchesCombo uLower h (DecrementCT (bindings h)) then ActionDecrementCT
      else if matchesCombo uLower h (IncrementT (bindings h)) then ActionIncrementT
      else if matchesCombo uLower h (DecrementT (bindings h)) then ActionDecrementT
      else if matchesCombo uLower h (Reset (bindings h)) then ActionReset
      else if matchesCombo uLower h (SelectCT (bindings h)) then ActionSelectCT
      else if matchesCombo uLower h (SelectT (bindings h)) then ActionSelectT
      else if matchesCombo uLower h (SwapTeams (bindings h)) then ActionSwapTeams
      else ActionNone)"

text \<open>
  The \<open>select\<close> with a \<open>default\<close> branch: the send happens when the buffer has
  room, and nothing happens otherwise.
\<close>

definition trySend :: "ActionType \<Rightarrow> ActionChan \<Rightarrow> ActionChan" where
  "trySend action c = (if length (buf c) < cap c then c\<lparr>buf := buf c @ [action]\<rparr> else c)"

text \<open>
  The index expression \<open>h.pressedKeys[keyName]\<close>, which is false for a missing key.
\<close>

definition isPressed :: "Handler \<Rightarrow> string \<Rightarrow> bool" where
  "isPressed h keyName = (case fmlookup (pressedKeys h) keyName of None \<Rightarrow> False | Some b \<Rightarrow> b)"

text \<open>
  \<open>handleKeyDown\<close> reads the clock twice: \<open>now\<close> is the reading inside
  \<open>time.Since\<close>, \<open>now'\<close> the one of \<open>time.Now()\<close> after a match.
\<close>

definition handleKeyDown :: "(string \<Rightarrow> string) \<Rightarrow> string \<Rightarrow> time \<Rightarrow> time \<Rightarrow> Handler \<Rightarrow> Handler" where
  "handleKeyDown uLower keyName now now' h =
     (if isPressed h keyName then h
      else
        let h1 = h\<lparr>pressedKeys := fmupd keyName True (pressedKeys h)\<rparr> in
        if time_Since now (lastActionTime h1) < 100 * Millisecond then h1
        else
          let action = checkCombos uLower h1 in
          if action \<noteq> ActionNone
          then
            let h2 = h1\<lparr>lastActionTime := now'\<rparr> in
            h2\<lparr>actionChan := trySend action (actionChan h2)\<rparr>
          else h1)"

definition handleKeyUp :: "string \<Rightarrow> Handler \<Rightarrow> Handler" where
  "handleKeyUp keyName h = h\<lparr>pressedKeys := fmdrop keyName (pressedKeys h)\<rparr>"

subsection \<open>Key translators\<close>

text \<open>
  An event of the keyboard hook library, with the three fields the handler reads:
  \<open>Rawcode\<close> is a \<open>uint16\<close> and \<open>Keychar\<close> a rune, each given here by its
  value (the handler compares them with constants and does no arithmetic on them).
  The library also delivers events of other kinds (held keys, the mouse).
\<close>

datatype EventKind = KeyDown | KeyUp | OtherKind

record Event =
  Kind :: EventKind
  Rawcode :: int
  Keychar :: int

text \<open>The \<open>switch\<close> on the X11 keysym in \<open>keymap_linux.go\<close>, in the order of its cases.\<close>

definition linuxRawcodes :: "(int \<times> string) list" where
  "linuxRawcodes =
     [(65505, ''LeftShift''), (65506, ''RightShift''), (65507, ''LeftControl''),
      (65508, ''RightControl''), (65513, ''LeftAlt''), (65514, ''RightAlt''),
      (65515, ''LeftSuper''), (65516, ''RightSuper''), (65470, ''F1''), (65471, ''F2''),
      (65472, ''F3''), (65473, ''F4''), (65474, ''F5''), (65475, ''F6''), (65476, ''F7''),
      (65477, ''F8''), (65478, ''F9''), (65479, ''F10''), (65480, ''F11''), (65481, ''F12''),
      (65293, ''Return''), (65288, ''Backspace''), (65289, ''Tab''), (32, ''Space''),
      (65307, ''Escape''), (65457, ''Numpad1''), (65458, ''Numpad2''), (65459, ''Numpad3''),
      (65460, ''Numpad4''), (65461, ''Numpad5''), (65462, ''Numpad6''), (65463, ''Numpad7''),
      (65464, ''Numpad8''), (65465, ''Numpad9''), (65456, ''Numpad0''),
      (65454, ''NumpadDecimal''), (65451, ''NumpadAdd''), (65453, ''NumpadSubtract''),
      (65450, ''NumpadMultiply''), (65455, ''NumpadDivide''), (65421, ''NumpadEnter''),
      (45, ''-''), (61, ''=''), (43, ''=''), (95, ''-''), (97, ''a''), (98, ''b''),
      (99, ''c''), (100, ''d''), (101, ''e''), (102, ''f''), (103, ''g''), (104, ''h''),
      (105, ''i''), (106, ''j''), (107, ''k''), (108, ''l''), (109, ''m''), (110, ''n''),
      (111, ''o''), (112, ''p''), (113, ''q''), (114, ''r''), (115, ''s''), (116, ''t''),
      (117, ''u''), (118, ''v''), (119, ''w''), (120, ''x''), (121, ''y''), (122, ''z'')]"

text \<open>\<open>mapKeyToName\<close> of \<open>keymap_linux.go\<close>.\<close>

definition mapKeyToName_linux :: "Event \<Rightarrow> string" where
  "mapKeyToName_linux ev =
     (case map_of linuxRawcodes (Rawcode ev) of
        Some name \<Rightarrow> name
      | None \<Rightarrow>
          if Keychar ev \<ge> 32 \<and> Keychar ev \<le> 126 then [char_of (Keychar ev)]
          else [])"

text \<open>The \<open>switch\<close> on the virtual key code in \<open>keymap_windows.go\<close>.\<close>

definition windowsRawcodes :: "(int \<times> string) list" where
  "windowsRawcodes =
     [(160, ''LeftShift''), (161, ''RightShift''), (162, ''LeftControl''),
      (163, ''RightControl''), (164, ''LeftAlt''), (165, ''RightAlt''), (91, ''LeftSuper''),
      (92, ''RightSuper''), (112, ''F1''), (113, ''F2''), (114, ''F3''), (115, ''F4''),
      (116, ''F5''), (117, ''F6''), (118, ''F7''), (119, ''F8''), (120, ''F9''),
      (121, ''F10''), (122, ''F11''), (123, ''F12''), (13, ''Return''), (8, ''Backspace''),
      (9, ''Tab''), (32, ''Space''), (27, ''Escape''), (97, ''1''), (98, ''2''), (99, ''3''),
      (100, ''4''), (101, ''5''), (102, ''6''), (103, ''7''), (104, ''8''), (105, ''9''),
      (96, ''0''), (110, ''.''), (107, ''+''), (109, ''-''), (106, ''*''), (111, ''/''),
      (189, ''-''), (187, ''=''), (65, ''A''), (66, ''B''), (67, ''C''), (68, ''D''),
      (69, ''E''), (70, ''F''), (71, ''G''), (72, ''H''), (73, ''I''), (74, ''J''),
      (75, ''K''), (76, ''L''), (77, ''M''), (78, ''N''), (79, ''O''), (80, ''P''),
      (81, ''Q''), (82, ''R''), (83, ''S''), (84, ''T''), (85, ''U''), (86, ''V''),
      (87, ''W''), (88, ''X''), (89, ''Y''), (90, ''Z''), (48, ''0''), (49, ''1''),
      (50, ''2''), (51, ''3''), (52, ''4''), (53, ''5''), (54, ''6''), (55, ''7''),
      (56, ''8''), (57, ''9'')]"

definition mapRawcode :: "int \<Rightarrow> string" where
  "mapRawcode rawcode = (case map_of windowsRawcodes rawcode of Some name \<Rightarrow> name | None \<Rightarrow> [])"

text \<open>\<open>mapKeyToName\<close> of \<open>keymap_windows.go\<close>.\<close>

definition mapKeyToName_windows :: "Event \<Rightarrow> string" where
  "mapKeyToName_windows ev =
     (let name = mapRawcode (Rawcode ev) in
      if name \<noteq> [] then name
      else if Keychar ev \<ge> 32 \<and> Keychar ev \<le> 126 then ToUpper [char_of (Keychar ev)]
      else [])"

text \<open>
  The physical keys that both tables cover, with the code each platform reports for them:
  the X11 keysym (\<open>keysymdef.h\<close>) and the Windows virtual key code (the \<open>VK_\<close> names
  in the comments of \<open>keymap_windows.go\<close>). Function keys are numbered 1 to 12, numpad
  digits 0 to 9, letters 0 to 25. The numpad Enter key reports \<open>VK_RETURN\<close> on Windows.
\<close>

datatype PhysKey =
    LeftShiftKey | RightShiftKey | LeftControlKey | RightControlKey
  | LeftAltKey | RightAltKey | LeftSuperKey | RightSuperKey
  | FunctionKey int
  | ReturnKey | BackspaceKey | TabKey | SpaceKey | EscapeKey
  | NumpadDigitKey int
  | NumpadDecimalKey | NumpadAddKey | NumpadSubtractKey | NumpadMultiplyKey | NumpadDivideKey
  | NumpadEnterKey
  | MinusKey | EqualsKey
  | LetterKey int

fun x11Keysym :: "PhysKey \<Rightarrow> int" where
  "x11Keysym LeftShiftKey = 65505"
| "x11Keysym RightShiftKey = 65506"
| "x11Keysym LeftControlKey = 65507"
| "x11Keysym RightControlKey = 65508"
| "x11Keysym LeftAltKey = 65513"
| "x11Keysym RightAltKey = 65514"
| "x11Keysym LeftSuperKey = 65515"
| "x11Keysym RightSuperKey = 65516"
| "x11Keysym (FunctionKey n) = 65469 + n"
| "x11Keysym ReturnKey = 65293"
| "x11Keysym BackspaceKey = 65288"
| "x11Keysym TabKey = 65289"
| "x11Keysym SpaceKey = 32"
| "x11Keysym EscapeKey = 65307"
| "x11Keysym (NumpadDigitKey d) = 65456 + d"
| "x11Keysym NumpadDecimalKey = 65454"
| "x11Keysym NumpadAddKey = 65451"
| "x11Keysym NumpadSubtractKey = 65453"
| "x11Keysym NumpadMultiplyKey = 65450"
| "x11Keysym NumpadDivideKey = 65455"
| "x11Keysym NumpadEnterKey = 65421"
| "x11Keysym MinusKey = 45"
| "x11Keysym EqualsKey = 61"
| "x11Keysym (LetterKey i) = 97 + i"

fun windowsVK :: "PhysKey \<Rightarrow> int" where
  "windowsVK LeftShiftKey = 160"
| "windowsVK RightShiftKey = 161"
| "windowsVK LeftControlKey = 162"
| "windowsVK RightControlKey = 163"
| "windowsVK LeftAltKey = 164"
| "windowsVK RightAltKey = 165"
| "windowsVK LeftSuperKey = 91"
| "windowsVK RightSuperKey = 92"
| "windowsVK (FunctionKey n) = 111 + n"
| "windowsVK ReturnKey = 13"
| "windowsVK BackspaceKey = 8"
| "windowsVK TabKey = 9"
| "windowsVK SpaceKey = 32"
| "windowsVK EscapeKey = 27"
| "windowsVK (NumpadDigitKey d) = 96 + d"
| "windowsVK NumpadDecimalKey = 110"
| "windowsVK NumpadAddKey = 107"
| "windowsVK NumpadSubtractKey = 109"
| "windowsVK NumpadMultiplyKey = 106"
| "windowsVK NumpadDivideKey = 111"
| "windowsVK NumpadEnterKey = 13"
| "windowsVK MinusKey = 189"
| "windowsVK EqualsKey = 187"
| "windowsVK (LetterKey i) = 65 + i"

definition plainKeys :: "PhysKey list" where
  "plainKeys =
     [LeftShiftKey, RightShiftKey, LeftControlKey, RightControlKey,
      LeftAltKey, RightAltKey, LeftSuperKey, RightSuperKey]
     @ map FunctionKey [1..12]
     @ [ReturnKey, BackspaceKey, TabKey, SpaceKey, EscapeKey, MinusKey, EqualsKey]"

definition letterKeys :: "PhysKey list" where
  "letterKeys = map LetterKey [0..25]"

definition numpadKeys :: "PhysKey list" where
  "numpadKeys =
     map NumpadDigitKey [0..9]
     @ [NumpadDecimalKey, NumpadAddKey, NumpadSubtractKey, NumpadMultiplyKey,
        NumpadDivideKey, NumpadEnterKey]"

text \<open>
  What each platform's translator reports when the physical key \<open>k\<close> goes down and the
  hook supplies the character \<open>kc\<close>.
\<close>

definition linuxName :: "PhysKey \<Rightarrow> int \<Rightarrow> string" where
  "linuxName k kc = mapKeyToName_linux \<lparr>Kind = KeyDown, Rawcode = x11Keysym k, Keychar = kc\<rparr>"

definition windowsName :: "PhysKey \<Rightarrow> int \<Rightarrow> string" where
  "windowsName k kc = mapKeyToName_windows \<lparr>Kind = KeyDown, Rawcode = windowsVK k, Keychar = kc\<rparr>"

subsection \<open>The listener\<close>

text \<open>
  \<open>Start\<close> and \<open>Stop\<close>. The goroutine that \<open>Start\<close> spawns runs \<open>processEvent\<close>
  on each event of the hook; the platform's \<open>mapKeyToName\<close> is a parameter.
\<close>

definition Start :: "Handler \<Rightarrow> Handler" where
  "Start h = (if hookRunning h then h else h\<lparr>hookRunning := True\<rparr>)"

definition Stop :: "Handler \<Rightarrow> Handler" where
  "Stop h = (if hookRunning h then h\<lparr>hookRunning := False\<rparr> else h)"

definition processEvent ::
  "(string \<Rightarrow> string) \<Rightarrow> (Event \<Rightarrow> string) \<Rightarrow> Event \<Rightarrow> time \<Rightarrow> time \<Rightarrow> Handler \<Rightarrow> Handler" where
  "processEvent uLower mapKeyToName ev now now' h =
     (let keyName = mapKeyToName ev in
      if keyName = [] then h
      else
        case Kind ev of
          KeyDown \<Rightarrow> handleKeyDown uLower keyName now now' h
        | KeyUp \<Rightarrow> handleKeyUp keyName h
        | OtherKind \<Rightarrow> h)"

text \<open>
  The consumer, \<open>for action := range t.hotkey.Actions()\<close> in the tracker, takes the
  oldest action of the buffer when there is one.
\<close>

definition receive :: "ActionChan \<Rightarrow> (ActionType \<times> ActionChan) option" where
  "receive c = (case buf c of [] \<Rightarrow> None | action # rest \<Rightarrow> Some (action, c\<lparr>buf := rest\<rparr>))"

text \<open>
  What can happen to a handler: the hook delivers an event (while it runs), with the two
  clock readings the handler may take; the host calls \<open>Start\<close>, \<open>Stop\<close> or
  \<open>UpdateBindings\<close>; the consumer receives.
\<close>

datatype Input =
    HookEvent Event time time
  | CallStart
  | CallStop
  | CallUpdateBindings Bindings
  | Receive

fun step :: "(string \<Rightarrow> string) \<Rightarrow> (Event \<Rightarrow> string) \<Rightarrow> Input \<Rightarrow> Handler \<Rightarrow> Handler" where
  "step uLower mapKeyToName (HookEvent ev now now') h =
     (if hookRunning h then processEvent uLower mapKeyToName ev now now' h else h)"
| "step uLower mapKeyToName CallStart h = Start h"
| "step uLower mapKeyToName CallStop h = Stop h"
| "step uLower mapKeyToName (CallUpdateBindings b) h = UpdateBindings b h"
| "step uLower mapKeyToName Receive h =
     (case receive (actionChan h) of None \<Rightarrow> h | Some (action, c) \<Rightarrow> h\<lparr>actionChan := c\<rparr>)"

fun run :: "(string \<Rightarrow> string) \<Rightarrow> (Event \<Rightarrow> string) \<Rightarrow> Input list \<Rightarrow> Handler \<Rightarrow> Handler" where
  "run uLower mapKeyToName [] h = h"
| "run uLower mapKeyToName (i # ins) h = run uLower mapKeyToName ins (step uLower mapKeyToName i h)"

text \<open>The actions the consumer receives in the course of a run, in order.\<close>

fun observed ::
  "(string \<Rightarrow> string) \<Rightarrow> (Event \<Rightarrow> string) \<Rightarrow> Input list \<Rightarrow> Handler \<Rightarrow> ActionType list" where
  "observed uLower mapKeyToName [] h = []"
| "observed uLower mapKeyToName (i # ins) h =
     (case (i, receive (actionChan h)) of
        (Receive, Some (action, c)) \<Rightarrow> [action]
      | _ \<Rightarrow> [])
     @ observed uLower mapKeyToName ins (step uLower mapKeyToName i h)"

text \<open>
  The emission times of a run: a step emits when it adds an action to the buffer, and the
  time of the emission is the \<open>time.Now()\<close> it stored in \<open>lastActionTime\<close>.
\<close>

fun emissionTimes ::
  "(string \<Rightarrow> string) \<Rightarrow> (Event \<Rightarrow> string) \<Rightarrow> Input list \<Rightarrow> Handler \<Rightarrow> time list" where
  "emissionTimes uLower mapKeyToName [] h = []"
| "emissionTimes uLower mapKeyToName (i # ins) h =
     (let h' = step uLower mapKeyToName i h in
      (if length (buf (actionChan h')) > length (buf (actionChan h)) then [lastActionTime h']
       else [])
      @ emissionTimes uLower mapKeyToName ins h')"

text \<open>
  The clock does not run backwards: every reading is at least the one before it,
  starting from \<open>t\<close>.
\<close>

fun clockMonotone :: "time \<Rightarrow> Input list \<Rightarrow> bool" where
  "clockMonotone t [] = True"
| "clockMonotone t (HookEvent ev now now' # ins) = (t \<le> now \<and> now \<le> now' \<and> clockMonotone now' ins)"
| "clockMonotone t (i # ins) = clockMonotone t ins"

text \<open>The inputs that release the key \<open>keyName\<close>: its key-up events.\<close>

fun releases :: "(Event \<Rightarrow> string) \<Rightarrow> string \<Rightarrow> Input \<Rightarrow> bool" where
  "releases mapKeyToName keyName (HookEvent ev now now') =
     (Kind ev = KeyUp \<and> mapKeyToName ev = keyName)"
| "releases mapKeyToName keyName i = False"

text \<open>The binding that \<open>handleKeyDown\<close> tests for each action.\<close>

fun bindingFor :: "Bindings \<Rightarrow> ActionType \<Rightarrow> string list option" where
  "bindingFor b ActionNone = None"
| "bindingFor b ActionIncrementCT = Some (IncrementCT b)"
| "bindingFor b ActionDecrementCT = Some (DecrementCT b)"
| "bindingFor b ActionIncrementT = Some (IncrementT b)"
| "bindingFor b ActionDecrementT = Some (DecrementT b)"
| "bindingFor b ActionReset = Some (Reset b)"
| "bindingFor b ActionSelectCT = Some (SelectCT b)"
| "bindingFor b ActionSelectT = Some (SelectT b)"
| "bindingFor b ActionSwapTeams = Some (SwapTeams b)"

subsection \<open>Formatting a binding\<close>

text \<open>The loop of \<open>FormatHotkeys\<close>, with its index \<open>i\<close> and its accumulator.\<close>

fun formatLoop :: "nat \<Rightarrow> string list \<Rightarrow> string \<Rightarrow> string" where
  "formatLoop i [] result = result"
| "formatLoop i (key # keys) result =
     formatLoop (Suc i) keys ((if i > 0 then result @ ''+'' else result) @ key)"

definition FormatHotkeys :: "string list \<Rightarrow> string" where
  "FormatHotkeys keys = (if length keys = 0 then ''Not set'' else formatLoop 0 keys [])"

text \<open>
  The specification's words for it: the key names joined with \<open>+\<close> in their original
  order.
\<close>

fun joinPlus :: "string list \<Rightarrow> string" where
  "joinPlus [] = []"
| "joinPlus [key] = key"
| "joinPlus (key # keys) = key @ ''+'' @ joinPlus keys"

subsection \<open>Reachable states and example runs\<close>

text \<open>
  Two facts about the states that \<open>run\<close> reaches from \<open>NewHandler\<close>: the map
  \<open>pressedKeys\<close> holds no \<open>false\<close> value, and the channel keeps its capacity of 10
  and never holds more.
\<close>

definition onlyTrue :: "Handler \<Rightarrow> bool" where
  "onlyTrue h = (\<forall>keyName. fmlookup (pressedKeys h) keyName \<noteq> Some False)"

definition chanOK :: "Handler \<Rightarrow> bool" where
  "chanOK h = (cap (actionChan h) = 10 \<and> length (buf (actionChan h)) \<le> 10)"

text \<open>A key-down and a key-up of the key with the given raw code, at time \<open>t\<close>.\<close>

definition keyDownAt :: "int \<Rightarrow> time \<Rightarrow> Input" where
  "keyDownAt rawcode t = HookEvent \<lparr>Kind = KeyDown, Rawcode = rawcode, Keychar = 0\<rparr> t t"

definition keyUpAt :: "int \<Rightarrow> time \<Rightarrow> Input" where
  "keyUpAt rawcode t = HookEvent \<lparr>Kind = KeyUp, Rawcode = rawcode, Keychar = 0\<rparr> t t"

text \<open>
  On Linux with the default bindings: numpad 1 is held and numpad Add is pressed and
  released ten times, 200 ms apart, while the consumer receives nothing.
\<close>

definition tenPresses :: "Input list" where
  "tenPresses =
     CallStart # keyDownAt 65457 0
     # concat (map (\<lambda>i. [keyDownAt 65451 (i * 200 * Millisecond),
                           keyUpAt 65451 (i * 200 * Millisecond + 1)]) [1..10])"

text \<open>
  On Linux with the default bindings: numpad 1 and Add (a match at 1010 ms), then numpad 2
  and Add at 1050 ms (a match that the cooldown swallows), then Add again at 1200 ms.
\<close>

definition threeCombos :: "Input list" where
  "threeCombos =
     [CallStart,
      keyDownAt 65457 (1000 * Millisecond), keyDownAt 65451 (1010 * Millisecond),
      keyUpAt 65451 (1020 * Millisecond), keyUpAt 65457 (1030 * Millisecond),
      keyDownAt 65458 (1040 * Millisecond), keyDownAt 65451 (1050 * Millisecond),
      keyUpAt 65451 (1060 * Millisecond), keyDownAt 65451 (1200 * Millisecond)]"

text \<open>
  The handler that \<open>tenPresses\<close> reaches, its queue full: numpad 1 held, ten actions
  queued, the last at 2000 ms.
\<close>

definition fullQueue :: Handler where
  "fullQueue =
     NewHandler defaultHotkeys_linux
       \<lparr>pressedKeys := fmupd ''Numpad1'' True fmempty,
        lastActionTime := 2000 * Millisecond,
        hookRunning := True,
        actionChan := \<lparr>cap = 10, buf = replicate 10 ActionIncrementCT\<rparr>\<rparr>"

section \<open>Properties\<close>

subsection \<open>Key names and lowercasing\<close>

text \<open>
  On an ASCII string \<open>ToLower\<close> does not depend on \<open>uLower\<close>, and every key name
  that a translator returns is ASCII.
\<close>

lemma ToLower_ascii: "isASCII s \<Longrightarrow> ToLower uLower s = asciiLower s"
  by (simp add: ToLower_def)

lemma tables_ascii:
  "list_all (\<lambda>(rawcode, name). isASCII name) linuxRawcodes"
  "list_all (\<lambda>(rawcode, name). isASCII name) windowsRawcodes"
  by code_simp+

lemma printable_ascii:
  "\<forall>kc \<in> set [32..126]. isASCII [char_of kc] \<and> isASCII (ToUpper [char_of kc])"
  by code_simp

lemma mapKeyToName_linux_ascii: "isASCII (mapKeyToName_linux ev)"
proof (cases "map_of linuxRawcodes (Rawcode ev)")
  case None
  show ?thesis
  proof (cases "32 \<le> Keychar ev \<and> Keychar ev \<le> 126")
    case True
    then have "Keychar ev \<in> set [32..126]"
      by (simp only: set_upto atLeastAtMost_iff)
    from bspec [OF printable_ascii this] None True show ?thesis
      by (simp add: mapKeyToName_linux_def)
  next
    case False
    with None show ?thesis by (auto simp: mapKeyToName_linux_def isASCII_def)
  qed
next
  case (Some name)
  then have "(Rawcode ev, name) \<in> set linuxRawcodes" by (rule map_of_SomeD)
  with tables_ascii(1) have "isASCII name" by (auto simp: list_all_iff)
  with Some show ?thesis by (simp add: mapKeyToName_linux_def)
qed

lemma mapRawcode_ascii: "isASCII (mapRawcode rawcode)"
proof (cases "map_of windowsRawcodes rawcode")
  case None
  then show ?thesis by (simp add: mapRawcode_def isASCII_def)
next
  case (Some name)
  then have "(rawcode, name) \<in> set windowsRawcodes" by (rule map_of_SomeD)
  with tables_ascii(2) have "isASCII name" by (auto simp: list_all_iff)
  with Some show ?thesis by (simp add: mapRawcode_def)
qed

lemma mapKeyToName_windows_ascii: "isASCII (mapKeyToName_windows ev)"
proof (cases "mapRawcode (Rawcode ev) \<noteq> []")
  case True
  with mapRawcode_ascii [of "Rawcode ev"] show ?thesis
    by (simp add: mapKeyToName_windows_def)
next
  case raw: False
  show ?thesis
  proof (cases "32 \<le> Keychar ev \<and> Keychar ev \<le> 126")
    case True
    then have "Keychar ev \<in> set [32..126]"
      by (simp only: set_upto atLeastAtMost_iff)
    from bspec [OF printable_ascii this] raw True show ?thesis
      by (simp add: mapKeyToName_windows_def)
  next
    case False
    with raw show ?thesis by (auto simp: mapKeyToName_windows_def isASCII_def)
  qed
qed

subsection \<open>Combo matching\<close>

lemma allKeysFound_iff:
  "allKeysFound uLower pressed comboKeys \<longleftrightarrow>
     (\<forall>key \<in> set comboKeys. \<exists>pressedKey |\<in>| fmdom pressed. ToLower uLower pressedKey = ToLower uLower key)"
  by (induction comboKeys) (auto simp: keyFound_def)

text \<open>
  Claim C1, as amended. \<open>matchesCombo\<close> holds exactly when every key of the binding
  equals some held key after \<open>strings.ToLower\<close> of both and the number of held keys
  equals the length of the binding (which counts a repeated key name each time). Hence,
  for a binding whose key names are pairwise different after \<open>strings.ToLower\<close>, a
  held-key set that holds every key of the binding, in this case-insensitive sense, and
  also a key that equals none of them after \<open>strings.ToLower\<close>, never matches. Both
  hold whatever \<open>strings.ToLower\<close> does to the strings that are not ASCII.
\<close>

theorem matchesCombo_exact:
  "(matchesCombo uLower h B \<longleftrightarrow>
      (\<forall>key \<in> set B. \<exists>pressedKey |\<in>| fmdom (pressedKeys h).
          ToLower uLower pressedKey = ToLower uLower key)
      \<and> fcard (fmdom (pressedKeys h)) = length B)
   \<and> (distinct (map (ToLower uLower) B)
       \<and> (\<forall>key \<in> set B. \<exists>pressedKey |\<in>| fmdom (pressedKeys h).
             ToLower uLower pressedKey = ToLower uLower key)
       \<and> (\<exists>extra |\<in>| fmdom (pressedKeys h).
             \<forall>key \<in> set B. ToLower uLower extra \<noteq> ToLower uLower key)
       \<longrightarrow> \<not> matchesCombo uLower h B)"
proof -
  define H where "H = fset (fmdom (pressedKeys h))"
  define L where "L = ToLower uLower"
  have iff: "matchesCombo uLower h B \<longleftrightarrow>
      (\<forall>key \<in> set B. \<exists>pressedKey \<in> H. L pressedKey = L key) \<and> card H = length B"
    by (simp add: matchesCombo_def allKeysFound_iff H_def L_def fcard.rep_eq)
  have "\<not> matchesCombo uLower h B"
    if d: "distinct (map L B)"
      and present: "\<forall>key \<in> set B. \<exists>pressedKey \<in> H. L pressedKey = L key"
      and extra: "\<exists>extra \<in> H. \<forall>key \<in> set B. L extra \<noteq> L key"
  proof -
    have "L ` set B \<subseteq> L ` H"
    proof
      fix y assume "y \<in> L ` set B"
      then obtain key where key: "key \<in> set B" "y = L key" by auto
      with present obtain pressedKey where "pressedKey \<in> H" "L pressedKey = L key" by blast
      with key show "y \<in> L ` H" by (metis imageI)
    qed
    moreover from extra obtain e where "e \<in> H" "L e \<notin> L ` set B" by auto
    ultimately have "L ` set B \<subset> L ` H" by blast
    moreover have "finite (L ` H)" by (simp add: H_def)
    ultimately have "card (L ` set B) < card (L ` H)" by (rule psubset_card_mono [rotated])
    moreover from d have "card (L ` set B) = length B"
      using distinct_card [of "map L B"] by simp
    moreover have "card (L ` H) \<le> card H" by (simp add: H_def card_image_le)
    ultimately have "length B < card H" by simp
    then show ?thesis by (simp add: iff)
  qed
  with iff show ?thesis unfolding H_def L_def by (simp add: fcard.rep_eq)
qed

text \<open>
  The theorem at two inputs: Control and \<open>c\<close> held against the binding Control, \<open>C\<close>
  (a match, across letter case), and Control, \<open>c\<close> and Shift held against it (none:
  the keys of the binding are held, and Shift is none of them).
\<close>

theorem matchesCombo_exact_witness:
  "matchesCombo noUnicodeLower
     (NewHandler defaultHotkeys_windows
        \<lparr>pressedKeys := fmupd ''LeftControl'' True (fmupd ''c'' True fmempty)\<rparr>)
     [''LeftControl'', ''C'']
   \<and> distinct (map (ToLower noUnicodeLower) [''LeftControl'', ''C''])
   \<and> allKeysFound noUnicodeLower
        (fmupd ''LeftControl'' True (fmupd ''c'' True (fmupd ''LeftShift'' True fmempty)))
        [''LeftControl'', ''C'']
   \<and> ''LeftShift''
        |\<in>| fmdom (fmupd ''LeftControl'' True (fmupd ''c'' True (fmupd ''LeftShift'' True fmempty)))
   \<and> list_all (\<lambda>key. ToLower noUnicodeLower ''LeftShift'' \<noteq> ToLower noUnicodeLower key)
        [''LeftControl'', ''C'']
   \<and> \<not> matchesCombo noUnicodeLower
       (NewHandler defaultHotkeys_windows
          \<lparr>pressedKeys :=
             fmupd ''LeftControl'' True (fmupd ''c'' True (fmupd ''LeftShift'' True fmempty))\<rparr>)
       [''LeftControl'', ''C'']"
proof -
  define held where
    "held = fmupd ''LeftControl'' True (fmupd ''c'' True (fmupd ''LeftShift'' True fmempty))"
  define h2 where "h2 = NewHandler defaultHotkeys_windows\<lparr>pressedKeys := held\<rparr>"
  define B where "B = [''LeftControl'', ''C'']"
  have pk: "pressedKeys h2 = held"
    by (simp add: h2_def)
  have m: "matchesCombo noUnicodeLower
     (NewHandler defaultHotkeys_windows
        \<lparr>pressedKeys := fmupd ''LeftControl'' True (fmupd ''c'' True fmempty)\<rparr>)
     [''LeftControl'', ''C'']"
    by code_simp
  have d: "distinct (map (ToLower noUnicodeLower) B)"
    unfolding B_def by code_simp
  have present: "allKeysFound noUnicodeLower held B"
    unfolding held_def B_def by code_simp
  have shift: "''LeftShift'' |\<in>| fmdom held"
    unfolding held_def by code_simp
  have other: "list_all (\<lambda>key. ToLower noUnicodeLower ''LeftShift'' \<noteq> ToLower noUnicodeLower key) B"
    unfolding B_def by code_simp
  from present have present': "\<forall>key \<in> set B.
      \<exists>pressedKey |\<in>| fmdom (pressedKeys h2).
        ToLower noUnicodeLower pressedKey = ToLower noUnicodeLower key"
    by (simp only: allKeysFound_iff pk)
  from other have "\<forall>key \<in> set B.
        ToLower noUnicodeLower ''LeftShift'' \<noteq> ToLower noUnicodeLower key"
    by (simp only: list_all_iff)
  with shift have extra: "\<exists>extra |\<in>| fmdom (pressedKeys h2).
      \<forall>key \<in> set B. ToLower noUnicodeLower extra \<noteq> ToLower noUnicodeLower key"
    unfolding pk by (rule bexI [rotated])
  note never = matchesCombo_exact [where uLower = noUnicodeLower and h = h2 and B = B,
      THEN conjunct2, THEN mp]
  have "\<not> matchesCombo noUnicodeLower h2 B"
    by (rule never) (intro conjI d present' extra)
  with m d present shift other show ?thesis
    unfolding held_def h2_def B_def by (intro conjI)
qed

text \<open>
  Claim C1 as it is written fails for a binding with a repeated key name: after key-downs
  of \<open>a\<close> and \<open>b\<close> the held keys strictly contain the keys of the binding \<open>a\<close>,
  \<open>a\<close>, and the binding matches. (So does the binding \<open>a\<close>, \<open>A\<close>, whose two
  names are one key to the case-insensitive comparison.)
\<close>

theorem matchesCombo_superset_counterexample:
  "set [''a'', ''a'']
     \<subset> fset (fmdom (pressedKeys (run noUnicodeLower mapKeyToName_linux
         [CallStart,
          HookEvent \<lparr>Kind = KeyDown, Rawcode = 97, Keychar = 97\<rparr> 1000000000 1000000000,
          HookEvent \<lparr>Kind = KeyDown, Rawcode = 98, Keychar = 98\<rparr> 1000000001 1000000001]
         (NewHandler defaultHotkeys_linux))))
   \<and> matchesCombo noUnicodeLower
       (run noUnicodeLower mapKeyToName_linux
         [CallStart,
          HookEvent \<lparr>Kind = KeyDown, Rawcode = 97, Keychar = 97\<rparr> 1000000000 1000000000,
          HookEvent \<lparr>Kind = KeyDown, Rawcode = 98, Keychar = 98\<rparr> 1000000001 1000000001]
         (NewHandler defaultHotkeys_linux))
       [''a'', ''a'']"
  by code_simp

text \<open>
  The strings of this run are ASCII, and the binding matches for every \<open>uLower\<close>.
\<close>

lemma repeated_name_matches:
  "matchesCombo uLower
       (run uLower mapKeyToName_linux
         [CallStart,
          HookEvent \<lparr>Kind = KeyDown, Rawcode = 97, Keychar = 97\<rparr> 1000000000 1000000000,
          HookEvent \<lparr>Kind = KeyDown, Rawcode = 98, Keychar = 98\<rparr> 1000000001 1000000001]
         (NewHandler defaultHotkeys_linux))
       [''a'', ''a'']"
  by code_simp

subsection \<open>The two translators\<close>

text \<open>A raw code with an entry decides the name, whatever the character.\<close>

lemma linuxName_hit:
  "map_of linuxRawcodes (x11Keysym k) \<noteq> None \<Longrightarrow> linuxName k kc = linuxName k 0"
  by (auto simp: linuxName_def mapKeyToName_linux_def)

lemma windowsName_hit:
  "mapRawcode (windowsVK k) \<noteq> [] \<Longrightarrow> windowsName k kc = windowsName k 0"
  by (simp add: windowsName_def mapKeyToName_windows_def)

lemma plainKeys_tables:
  "\<forall>k \<in> set plainKeys.
     map_of linuxRawcodes (x11Keysym k) \<noteq> None \<and> mapRawcode (windowsVK k) \<noteq> []
     \<and> linuxName k 0 = windowsName k 0"
  by code_simp

lemma letterKeys_tables:
  "\<forall>k \<in> set letterKeys.
     map_of linuxRawcodes (x11Keysym k) \<noteq> None \<and> mapRawcode (windowsVK k) \<noteq> []
     \<and> asciiLower (linuxName k 0) = asciiLower (windowsName k 0)
     \<and> linuxName k 0 \<noteq> windowsName k 0"
  by code_simp

lemma numpadKeys_tables:
  "\<forall>k \<in> set numpadKeys.
     map_of linuxRawcodes (x11Keysym k) \<noteq> None \<and> mapRawcode (windowsVK k) \<noteq> []
     \<and> asciiLower (linuxName k 0) \<noteq> asciiLower (windowsName k 0)"
  by code_simp

lemma mapRawcode_entry: "mapRawcode rawcode \<noteq> [] \<Longrightarrow> map_of windowsRawcodes rawcode \<noteq> None"
  by (auto simp: mapRawcode_def split: option.splits)

text \<open>
  Claim C3, as amended. For the modifier keys, the function keys, Return, Backspace, Tab,
  Space, Escape, minus and equals, the Linux and the Windows translator produce the same
  name. For the letter keys the two names are equal up to letter case only (lowercase on
  Linux, uppercase on Windows). For the numpad keys the names differ, also up to letter
  case (\<open>Numpad1\<close> on Linux, \<open>1\<close> on Windows). Each of these keys has an entry
  in both tables.
\<close>

theorem translators_agree:
  "(\<forall>k \<in> set plainKeys. linuxName k kc = windowsName k kc')
   \<and> (\<forall>k \<in> set letterKeys.
        asciiLower (linuxName k kc) = asciiLower (windowsName k kc')
        \<and> linuxName k kc \<noteq> windowsName k kc')
   \<and> (\<forall>k \<in> set numpadKeys. asciiLower (linuxName k kc) \<noteq> asciiLower (windowsName k kc'))
   \<and> (\<forall>k \<in> set (plainKeys @ letterKeys @ numpadKeys).
        map_of linuxRawcodes (x11Keysym k) \<noteq> None
        \<and> map_of windowsRawcodes (windowsVK k) \<noteq> None)"
proof (intro conjI ballI)
  fix k assume "k \<in> set plainKeys"
  then show "linuxName k kc = windowsName k kc'"
    using bspec [OF plainKeys_tables, of k] linuxName_hit [of k kc] windowsName_hit [of k kc']
    by simp
next
  fix k assume k: "k \<in> set letterKeys"
  then show "asciiLower (linuxName k kc) = asciiLower (windowsName k kc')"
    using bspec [OF letterKeys_tables, of k] linuxName_hit [of k kc] windowsName_hit [of k kc']
    by simp
  from k show "linuxName k kc \<noteq> windowsName k kc'"
    using bspec [OF letterKeys_tables, of k] linuxName_hit [of k kc] windowsName_hit [of k kc']
    by simp
next
  fix k assume "k \<in> set numpadKeys"
  then show "asciiLower (linuxName k kc) \<noteq> asciiLower (windowsName k kc')"
    using bspec [OF numpadKeys_tables, of k] linuxName_hit [of k kc] windowsName_hit [of k kc']
    by simp
next
  fix k assume "k \<in> set (plainKeys @ letterKeys @ numpadKeys)"
  then have "map_of linuxRawcodes (x11Keysym k) \<noteq> None \<and> mapRawcode (windowsVK k) \<noteq> []"
    using bspec [OF plainKeys_tables, of k] bspec [OF letterKeys_tables, of k]
      bspec [OF numpadKeys_tables, of k]
    by auto
  then show "map_of linuxRawcodes (x11Keysym k) \<noteq> None"
    and "map_of windowsRawcodes (windowsVK k) \<noteq> None"
    by (simp_all add: mapRawcode_entry)
qed

text \<open>The theorem at the left Control key, the \<open>C\<close> key and the numpad 1 key.\<close>

theorem translators_agree_witness:
  "LeftControlKey \<in> set plainKeys
   \<and> linuxName LeftControlKey 0 = ''LeftControl'' \<and> windowsName LeftControlKey 0 = ''LeftControl''
   \<and> LetterKey 2 \<in> set letterKeys
   \<and> linuxName (LetterKey 2) 99 = ''c'' \<and> windowsName (LetterKey 2) 99 = ''C''
   \<and> NumpadDigitKey 1 \<in> set numpadKeys
   \<and> linuxName (NumpadDigitKey 1) 49 = ''Numpad1'' \<and> windowsName (NumpadDigitKey 1) 49 = ''1''"
  using translators_agree [of 0 0] translators_agree [of 99 99] translators_agree [of 49 49]
  by code_simp

text \<open>
  Claim C3 as it is written fails for the \<open>C\<close> key and for the numpad 1 key: both
  tables have an entry for each, and the names differ.
\<close>

theorem translators_differ_counterexample:
  "map_of linuxRawcodes (x11Keysym (LetterKey 2)) = Some ''c''
   \<and> map_of windowsRawcodes (windowsVK (LetterKey 2)) = Some ''C''
   \<and> linuxName (LetterKey 2) 99 \<noteq> windowsName (LetterKey 2) 99
   \<and> map_of linuxRawcodes (x11Keysym (NumpadDigitKey 1)) = Some ''Numpad1''
   \<and> map_of windowsRawcodes (windowsVK (NumpadDigitKey 1)) = Some ''1''
   \<and> linuxName (NumpadDigitKey 1) 49 \<noteq> windowsName (NumpadDigitKey 1) 49"
  by code_simp

subsection \<open>Formatting a binding\<close>

lemma formatLoop_pos:
  "i > 0 \<Longrightarrow> formatLoop i keys result = result @ concat (map (\<lambda>key. ''+'' @ key) keys)"
  by (induction keys arbitrary: i result) simp_all

lemma joinPlus_Cons:
  "joinPlus (key # keys) = key @ concat (map (\<lambda>key. ''+'' @ key) keys)"
  by (induction keys arbitrary: key) simp_all

text \<open>
  Claim C9, as amended. For every binding with at least one key, \<open>FormatHotkeys\<close>
  returns the key names joined with \<open>+\<close> in their original order; for the empty
  binding it returns \<open>Not set\<close>.
\<close>

theorem FormatHotkeys_joinPlus:
  "(keys \<noteq> [] \<longrightarrow> FormatHotkeys keys = joinPlus keys) \<and> FormatHotkeys [] = ''Not set''"
proof (cases keys)
  case Nil
  then show ?thesis by (simp add: FormatHotkeys_def)
next
  case (Cons key rest)
  then show ?thesis
    by (simp add: FormatHotkeys_def formatLoop_pos joinPlus_Cons del: joinPlus.simps)
qed

text \<open>The theorem at the binding Control, \<open>C\<close>.\<close>

theorem FormatHotkeys_joinPlus_witness:
  "[''LeftControl'', ''C''] \<noteq> [] \<and> FormatHotkeys [''LeftControl'', ''C''] = ''LeftControl+C''"
  using FormatHotkeys_joinPlus [of "[''LeftControl'', ''C'']"] by simp

text \<open>
  Claim C9 as it is written fails at the empty binding, whose joined key names are the
  empty string.
\<close>

theorem FormatHotkeys_empty_counterexample:
  "FormatHotkeys [] \<noteq> joinPlus []"
  by (simp add: FormatHotkeys_def)

subsection \<open>The fallback character\<close>

lemma toUpper_printable:
  "\<forall>kc \<in> set [32..126]. toUpper_char (char_of kc) =
      (if 97 \<le> kc \<and> kc \<le> 122 then char_of (kc - 32) else char_of kc)"
  by code_simp

text \<open>
  Claim C4, as amended. When the raw code has no entry in the table and the fallback
  character is printable ASCII (32 to 126), the Windows translator returns a lowercase
  letter as its uppercase letter and every other character as it is; the Linux translator
  returns every character as it is, lowercase letters too.
\<close>

theorem fallback_character:
  "(mapRawcode (Rawcode ev) = [] \<and> 32 \<le> Keychar ev \<and> Keychar ev \<le> 126 \<longrightarrow>
      mapKeyToName_windows ev =
        (if 97 \<le> Keychar ev \<and> Keychar ev \<le> 122 then [char_of (Keychar ev - 32)]
         else [char_of (Keychar ev)]))
   \<and> (map_of linuxRawcodes (Rawcode ev) = None \<and> 32 \<le> Keychar ev \<and> Keychar ev \<le> 126 \<longrightarrow>
      mapKeyToName_linux ev = [char_of (Keychar ev)])"
proof -
  have "toUpper_char (char_of (Keychar ev)) =
      (if 97 \<le> Keychar ev \<and> Keychar ev \<le> 122 then char_of (Keychar ev - 32)
       else char_of (Keychar ev))"
    if "32 \<le> Keychar ev" "Keychar ev \<le> 126"
  proof -
    have "Keychar ev \<in> set [32..126]"
      using that by (simp only: set_upto atLeastAtMost_iff)
    then show ?thesis
      by (rule bspec [OF toUpper_printable])
  qed
  then show ?thesis
    by (simp add: mapKeyToName_windows_def mapKeyToName_linux_def ToUpper_def)
qed

text \<open>The theorem at raw code 0 with the characters \<open>q\<close> and \<open>;\<close>.\<close>

theorem fallback_character_witness:
  "mapRawcode 0 = [] \<and> map_of linuxRawcodes 0 = None
   \<and> mapKeyToName_windows \<lparr>Kind = KeyDown, Rawcode = 0, Keychar = 113\<rparr> = ''Q''
   \<and> mapKeyToName_windows \<lparr>Kind = KeyDown, Rawcode = 0, Keychar = 59\<rparr> = '';''
   \<and> mapKeyToName_linux \<lparr>Kind = KeyDown, Rawcode = 0, Keychar = 113\<rparr> = ''q''"
  using fallback_character [of "\<lparr>Kind = KeyDown, Rawcode = 0, Keychar = 113\<rparr>"]
    fallback_character [of "\<lparr>Kind = KeyDown, Rawcode = 0, Keychar = 59\<rparr>"]
  by code_simp

text \<open>
  Claim C4 as it is written fails on Linux: raw code 0 has no entry, the fallback
  character is the letter \<open>q\<close>, and the translator returns \<open>q\<close>, not \<open>Q\<close>.
\<close>

theorem fallback_linux_counterexample:
  "map_of linuxRawcodes 0 = None
   \<and> mapKeyToName_linux \<lparr>Kind = KeyDown, Rawcode = 0, Keychar = 113\<rparr> = ''q''
   \<and> mapKeyToName_linux \<lparr>Kind = KeyDown, Rawcode = 0, Keychar = 113\<rparr> \<noteq> ''Q''"
  by code_simp

subsection \<open>Key-down handling\<close>

lemma time_Since_less:
  "time_Since now t < 100 * Millisecond \<longleftrightarrow> now - t < 100 * Millisecond"
  by (simp add: time_Since_def Let_def maxDuration_def minDuration_def Millisecond_def)

lemma isPressed_dom: "isPressed h keyName \<Longrightarrow> keyName |\<in>| fmdom (pressedKeys h)"
  by (auto simp: isPressed_def split: option.splits intro: fmdomI)

lemma fcard_pos: "x |\<in>| A \<Longrightarrow> 0 < fcard A"
  by (auto simp: fcard.rep_eq card_gt_0_iff)

lemma trySend_full: "cap c \<le> length (buf c) \<Longrightarrow> trySend action c = c"
  by (simp add: trySend_def)

lemma trySend_buf: "buf (trySend action c) = buf c \<or> buf (trySend action c) = buf c @ [action]"
  by (simp add: trySend_def)

lemma trySend_cap: "cap (trySend action c) = cap c"
  by (simp add: trySend_def)

lemma trySend_length_10:
  "cap c = 10 \<Longrightarrow> length (buf c) \<le> 10 \<Longrightarrow> length (buf (trySend action c)) \<le> 10"
  by (simp add: trySend_def)

text \<open>
  The three ways in which \<open>handleKeyDown\<close> returns: the key was held already; the
  key is inserted and nothing fires; the key is inserted and an action fires.
\<close>

lemma handleKeyDown_cases:
  fixes uLower h keyName now now'
  defines "h1 \<equiv> h\<lparr>pressedKeys := fmupd keyName True (pressedKeys h)\<rparr>"
  shows "(isPressed h keyName \<and> handleKeyDown uLower keyName now now' h = h)
    \<or> (\<not> isPressed h keyName
        \<and> (now - lastActionTime h < 100 * Millisecond \<or> checkCombos uLower h1 = ActionNone)
        \<and> handleKeyDown uLower keyName now now' h = h1)
    \<or> (\<not> isPressed h keyName \<and> 100 * Millisecond \<le> now - lastActionTime h
        \<and> checkCombos uLower h1 \<noteq> ActionNone
        \<and> handleKeyDown uLower keyName now now' h =
            h1\<lparr>lastActionTime := now', actionChan := trySend (checkCombos uLower h1) (actionChan h)\<rparr>)"
  unfolding h1_def by (auto simp: handleKeyDown_def Let_def time_Since_less)

lemma handleKeyDown_full:
  "cap (actionChan h) \<le> length (buf (actionChan h)) \<Longrightarrow>
   actionChan (handleKeyDown uLower keyName now now' h) = actionChan h"
  using handleKeyDown_cases [where h = h and keyName = keyName and now = now and now' = now' and uLower = uLower] by (auto simp: trySend_full)

lemma handleKeyDown_cooldown:
  "t - lastActionTime h < 100 * Millisecond \<Longrightarrow>
   actionChan (handleKeyDown uLower keyName t t' h) = actionChan h
   \<and> lastActionTime (handleKeyDown uLower keyName t t' h) = lastActionTime h
   \<and> bindings (handleKeyDown uLower keyName t t' h) = bindings h
   \<and> hookRunning (handleKeyDown uLower keyName t t' h) = hookRunning h
   \<and> keyName |\<in>| fmdom (pressedKeys (handleKeyDown uLower keyName t t' h))
   \<and> (handleKeyDown uLower keyName t t' h = h
       \<or> handleKeyDown uLower keyName t t' h = h\<lparr>pressedKeys := fmupd keyName True (pressedKeys h)\<rparr>)"
  using handleKeyDown_cases [where h = h and keyName = keyName and now = t and now' = t' and uLower = uLower] by (auto simp: isPressed_dom)

subsection \<open>Reachable states\<close>

lemma handleKeyDown_onlyTrue: "onlyTrue h \<Longrightarrow> onlyTrue (handleKeyDown uLower keyName now now' h)"
  using handleKeyDown_cases [where h = h and keyName = keyName and now = now and now' = now' and uLower = uLower] by (auto simp: onlyTrue_def split: if_splits)

lemma handleKeyDown_chanOK: "chanOK h \<Longrightarrow> chanOK (handleKeyDown uLower keyName now now' h)"
  using handleKeyDown_cases [where h = h and keyName = keyName and now = now and now' = now' and uLower = uLower]
  by (auto simp: chanOK_def trySend_cap trySend_length_10)

lemma step_onlyTrue: "onlyTrue h \<Longrightarrow> onlyTrue (step uLower mk i h)"
proof (cases i)
  case (HookEvent ev now now')
  assume "onlyTrue h"
  then show ?thesis
    using HookEvent handleKeyDown_onlyTrue [where h = h and keyName = "mk ev" and now = now and now' = now' and uLower = uLower]
    by (auto simp: processEvent_def Let_def handleKeyUp_def onlyTrue_def split: EventKind.splits)
qed (auto simp: onlyTrue_def Start_def Stop_def UpdateBindings_def split: option.splits)

lemma step_chanOK: "chanOK h \<Longrightarrow> chanOK (step uLower mk i h)"
proof (cases i)
  case (HookEvent ev now now')
  assume "chanOK h"
  then show ?thesis
    using HookEvent handleKeyDown_chanOK [where h = h and keyName = "mk ev" and now = now and now' = now' and uLower = uLower]
    by (auto simp: processEvent_def Let_def handleKeyUp_def chanOK_def split: EventKind.splits)
qed (auto simp: chanOK_def Start_def Stop_def UpdateBindings_def receive_def
       split: option.splits list.splits)

lemma run_onlyTrue: "onlyTrue h \<Longrightarrow> onlyTrue (run uLower mk ins h)"
  by (induction ins arbitrary: h) (simp_all add: step_onlyTrue)

lemma run_chanOK: "chanOK h \<Longrightarrow> chanOK (run uLower mk ins h)"
  by (induction ins arbitrary: h) (simp_all add: step_chanOK)

lemma NewHandler_onlyTrue: "onlyTrue (NewHandler b)"
  by (simp add: onlyTrue_def NewHandler_def)

lemma NewHandler_chanOK: "chanOK (NewHandler b)"
  by (simp add: chanOK_def NewHandler_def)

lemma onlyTrue_isPressed:
  assumes "onlyTrue h" and "keyName |\<in>| fmdom (pressedKeys h)"
  shows "isPressed h keyName"
proof -
  from assms(2) obtain b where b: "fmlookup (pressedKeys h) keyName = Some b"
    by (auto elim: fmdomE)
  with assms(1) have "b" by (cases b) (auto simp: onlyTrue_def)
  with b show ?thesis by (simp add: isPressed_def)
qed

subsection \<open>Auto-repeat\<close>

text \<open>
  Claim C6. In every state that the handler reaches from \<open>NewHandler\<close>, a key-down
  for a key name that is already in the held-key set changes nothing: the handler after
  it is the handler before it (held-key set, cooldown clock, action queue and all), and
  this whatever the bindings are, so no match is evaluated.
\<close>

theorem repeated_keyDown_noop:
  "keyName |\<in>| fmdom (pressedKeys (run uLower mk ins (NewHandler b))) \<Longrightarrow>
   handleKeyDown uLower keyName now now' (run uLower mk ins (NewHandler b)) = run uLower mk ins (NewHandler b)"
  using onlyTrue_isPressed [OF run_onlyTrue [OF NewHandler_onlyTrue [of b], of uLower mk ins], of keyName]
  by (simp add: handleKeyDown_def)

text \<open>
  The theorem after one key-down of \<open>a\<close>.
\<close>

theorem repeated_keyDown_noop_witness:
  "''a'' |\<in>| fmdom (pressedKeys
      (run noUnicodeLower mapKeyToName_linux [CallStart, keyDownAt 97 0] (NewHandler defaultHotkeys_linux)))
   \<and> handleKeyDown noUnicodeLower ''a'' 1 1
        (run noUnicodeLower mapKeyToName_linux [CallStart, keyDownAt 97 0] (NewHandler defaultHotkeys_linux))
       = run noUnicodeLower mapKeyToName_linux [CallStart, keyDownAt 97 0] (NewHandler defaultHotkeys_linux)"
proof -
  have held: "''a'' |\<in>| fmdom (pressedKeys
      (run noUnicodeLower mapKeyToName_linux [CallStart, keyDownAt 97 0] (NewHandler defaultHotkeys_linux)))"
    by code_simp
  from repeated_keyDown_noop [OF held] held show ?thesis by blast
qed

subsection \<open>Empty bindings\<close>

lemma checkCombos_binding:
  "checkCombos uLower h \<noteq> ActionNone \<Longrightarrow>
   \<exists>B. bindingFor (bindings h) (checkCombos uLower h) = Some B \<and> matchesCombo uLower h B"
  by (auto simp: checkCombos_def split: if_splits)

lemma matchesCombo_empty_after_insert:
  "\<not> matchesCombo uLower (h\<lparr>pressedKeys := fmupd keyName True (pressedKeys h)\<rparr>) []"
  by (simp add: matchesCombo_def fcard_finsert_if fcard_pos)

text \<open>
  Claim C5. In every state and for every key-down, the held-key set that the match is
  evaluated on holds at least the key just inserted, so the empty binding does not match
  it; and \<open>handleKeyDown\<close> either leaves the action queue as it is or appends one
  action whose binding matches and is not empty.
\<close>

theorem empty_binding_never_fires:
  fixes uLower h keyName now now'
  defines "h1 \<equiv> h\<lparr>pressedKeys := fmupd keyName True (pressedKeys h)\<rparr>"
  defines "h' \<equiv> handleKeyDown uLower keyName now now' h"
  shows "0 < fcard (fmdom (pressedKeys h1)) \<and> \<not> matchesCombo uLower h1 []
    \<and> (buf (actionChan h') = buf (actionChan h)
        \<or> (\<exists>action B. buf (actionChan h') = buf (actionChan h) @ [action]
              \<and> bindingFor (bindings h) action = Some B \<and> matchesCombo uLower h1 B \<and> B \<noteq> []))"
proof -
  have ne: "\<not> matchesCombo uLower h1 []"
    unfolding h1_def by (rule matchesCombo_empty_after_insert)
  have pos: "0 < fcard (fmdom (pressedKeys h1))"
    unfolding h1_def by (simp add: fcard_finsert_if fcard_pos)
  have "buf (actionChan h') = buf (actionChan h)
        \<or> (\<exists>action B. buf (actionChan h') = buf (actionChan h) @ [action]
              \<and> bindingFor (bindings h) action = Some B \<and> matchesCombo uLower h1 B \<and> B \<noteq> [])"
  proof (cases "buf (actionChan h') = buf (actionChan h)")
    case False
    with handleKeyDown_cases [where h = h and keyName = keyName and now = now and now' = now' and uLower = uLower]
    have fire: "checkCombos uLower h1 \<noteq> ActionNone"
      and eq: "buf (actionChan h') = buf (trySend (checkCombos uLower h1) (actionChan h))"
      unfolding h1_def h'_def by auto
    from checkCombos_binding [OF fire] obtain B
      where B: "bindingFor (bindings h) (checkCombos uLower h1) = Some B" "matchesCombo uLower h1 B"
      unfolding h1_def by auto
    with ne have "B \<noteq> []" by auto
    moreover from eq False trySend_buf [of "checkCombos uLower h1" "actionChan h"]
    have "buf (actionChan h') = buf (actionChan h) @ [checkCombos uLower h1]" by auto
    ultimately show ?thesis using B by blast
  qed simp
  with ne pos show ?thesis by blast
qed

text \<open>
  The theorem with the Reset binding empty, at the first key-down.
\<close>

theorem empty_binding_never_fires_witness:
  "Reset (defaultHotkeys_linux\<lparr>Reset := []\<rparr>) = []
   \<and> \<not> matchesCombo noUnicodeLower
        (NewHandler (defaultHotkeys_linux\<lparr>Reset := []\<rparr>)
           \<lparr>pressedKeys := fmupd ''a'' True fmempty\<rparr>) []
   \<and> buf (actionChan (handleKeyDown noUnicodeLower ''a'' (1000 * Millisecond) (1000 * Millisecond)
        (NewHandler (defaultHotkeys_linux\<lparr>Reset := []\<rparr>)))) = []"
proof -
  have "Reset (defaultHotkeys_linux\<lparr>Reset := []\<rparr>) = []" by simp
  moreover have "buf (actionChan (handleKeyDown noUnicodeLower ''a'' (1000 * Millisecond) (1000 * Millisecond)
        (NewHandler (defaultHotkeys_linux\<lparr>Reset := []\<rparr>)))) = []"
    by code_simp
  moreover from empty_binding_never_fires [where keyName = "''a''"
      and h = "NewHandler (defaultHotkeys_linux\<lparr>Reset := []\<rparr>)"
      and uLower = noUnicodeLower]
  have "\<not> matchesCombo noUnicodeLower
        (NewHandler (defaultHotkeys_linux\<lparr>Reset := []\<rparr>)
           \<lparr>pressedKeys := fmupd ''a'' True
              (pressedKeys (NewHandler (defaultHotkeys_linux\<lparr>Reset := []\<rparr>)))\<rparr>) []"
    by blast
  ultimately show ?thesis by (simp add: NewHandler_def)
qed

subsection \<open>The action queue\<close>

lemma observed_receives:
  "observed uLower mk (replicate n Receive) h = take n (buf (actionChan h))"
proof (induction n arbitrary: h)
  case (Suc n)
  show ?case
  proof (cases "buf (actionChan h)")
    case Nil
    with Suc [of h] show ?thesis by (simp add: receive_def)
  next
    case (Cons action rest)
    with Suc [of "h\<lparr>actionChan := actionChan h\<lparr>buf := rest\<rparr>\<rparr>"] show ?thesis
      by (simp add: receive_def)
  qed
qed simp

text \<open>
  Claim C7. The queue that \<open>NewHandler\<close> makes has capacity 10 and keeps it, holding
  10 actions at most. When it holds 10, a key-down returns (the model is a total function)
  and leaves the queue as it is, whether or not a binding matched; the consumer then
  receives the 10 queued actions and nothing else, however often it receives.
\<close>

theorem queue_full_drop:
  fixes uLower mk ins b keyName now now'
  defines "h \<equiv> run uLower mk ins (NewHandler b)"
  shows "cap (actionChan (NewHandler b)) = 10 \<and> buf (actionChan (NewHandler b)) = []
    \<and> cap (actionChan h) = 10 \<and> length (buf (actionChan h)) \<le> 10
    \<and> (length (buf (actionChan h)) = 10 \<longrightarrow>
         actionChan (handleKeyDown uLower keyName now now' h) = actionChan h
         \<and> (\<forall>n. observed uLower mk (replicate n Receive) (handleKeyDown uLower keyName now now' h)
                = take n (buf (actionChan h))))"
proof -
  have ok: "chanOK h"
    unfolding h_def by (rule run_chanOK [OF NewHandler_chanOK])
  then have "actionChan (handleKeyDown uLower keyName now now' h) = actionChan h"
    if "length (buf (actionChan h)) = 10"
    using that by (intro handleKeyDown_full) (simp add: chanOK_def)
  with ok show ?thesis
    by (simp add: observed_receives chanOK_def NewHandler_def)
qed

text \<open>The run \<open>tenPresses\<close> ends in the handler \<open>fullQueue\<close>.\<close>

lemma fullQueue_reached:
  "run noUnicodeLower mapKeyToName_linux tenPresses (NewHandler defaultHotkeys_linux) = fullQueue"
  by code_simp

text \<open>
  The theorem after \<open>tenPresses\<close>: the queue holds ten actions, an eleventh press
  matches, and eleven receives yield the ten.
\<close>

theorem queue_full_drop_witness:
  "length (buf (actionChan (run noUnicodeLower mapKeyToName_linux tenPresses (NewHandler defaultHotkeys_linux)))) = 10
   \<and> checkCombos noUnicodeLower (run noUnicodeLower mapKeyToName_linux tenPresses (NewHandler defaultHotkeys_linux)
        \<lparr>pressedKeys := fmupd ''NumpadAdd'' True
           (pressedKeys (run noUnicodeLower mapKeyToName_linux tenPresses (NewHandler defaultHotkeys_linux)))\<rparr>)
       = ActionIncrementCT
   \<and> observed noUnicodeLower mapKeyToName_linux (replicate 11 Receive)
        (handleKeyDown noUnicodeLower ''NumpadAdd'' (2200 * Millisecond) (2200 * Millisecond)
          (run noUnicodeLower mapKeyToName_linux tenPresses (NewHandler defaultHotkeys_linux)))
       = replicate 10 ActionIncrementCT"
proof -
  have full: "length (buf (actionChan fullQueue)) = 10"
    by code_simp
  have match: "checkCombos noUnicodeLower
      (fullQueue\<lparr>pressedKeys := fmupd ''NumpadAdd'' True (pressedKeys fullQueue)\<rparr>)
       = ActionIncrementCT"
    by code_simp
  have queued: "take 11 (buf (actionChan fullQueue)) = replicate 10 ActionIncrementCT"
    by code_simp
  from full
    queue_full_drop [where uLower = noUnicodeLower
      and mk = mapKeyToName_linux and ins = tenPresses
      and b = defaultHotkeys_linux and keyName = "''NumpadAdd''"
      and now = "2200 * Millisecond" and now' = "2200 * Millisecond",
      unfolded fullQueue_reached]
  have "observed noUnicodeLower mapKeyToName_linux (replicate 11 Receive)
          (handleKeyDown noUnicodeLower ''NumpadAdd'' (2200 * Millisecond) (2200 * Millisecond) fullQueue)
        = take 11 (buf (actionChan fullQueue))"
    by blast
  with full match queued show ?thesis
    unfolding fullQueue_reached by simp
qed

subsection \<open>Stop and start\<close>

text \<open>A held key stays held through every step that is not a key-up for it.\<close>

lemma handleKeyDown_keeps:
  "keyName |\<in>| fmdom (pressedKeys h) \<Longrightarrow>
   keyName |\<in>| fmdom (pressedKeys (handleKeyDown uLower otherKey now now' h))"
  using handleKeyDown_cases [where h = h and keyName = otherKey and now = now and now' = now' and uLower = uLower] by auto

lemma step_keeps:
  assumes "keyName |\<in>| fmdom (pressedKeys h)" and "\<not> releases mk keyName i"
  shows "keyName |\<in>| fmdom (pressedKeys (step uLower mk i h))"
proof (cases i)
  case (HookEvent ev now now')
  with assms handleKeyDown_keeps [where keyName = keyName and h = h and otherKey = "mk ev" and now = now and now' = now' and uLower = uLower] show ?thesis
    by (cases "Kind ev") (auto simp: processEvent_def Let_def handleKeyUp_def)
qed (use assms in \<open>auto simp: Start_def Stop_def UpdateBindings_def split: option.splits\<close>)

lemma run_keeps:
  "keyName |\<in>| fmdom (pressedKeys h) \<Longrightarrow> \<forall>i \<in> set ins. \<not> releases mk keyName i \<Longrightarrow>
   keyName |\<in>| fmdom (pressedKeys (run uLower mk ins h))"
  by (induction ins arbitrary: h) (simp_all add: step_keeps)

text \<open>
  Claim C8, as amended. \<open>Stop\<close> and \<open>Start\<close> leave the held-key set as it is:
  after a stop and a start it is the set from before the stop. A key that is held stays
  held through every run, stops and starts included, that has no key-up for it.
\<close>

theorem stop_start_keeps_pressedKeys:
  "pressedKeys (Stop h) = pressedKeys h \<and> pressedKeys (Start h) = pressedKeys h
   \<and> pressedKeys (run uLower mk [CallStop, CallStart] h) = pressedKeys h
   \<and> (keyName |\<in>| fmdom (pressedKeys h) \<and> (\<forall>i \<in> set ins. \<not> releases mk keyName i) \<longrightarrow>
        keyName |\<in>| fmdom (pressedKeys (run uLower mk ins h)))"
  using run_keeps [of keyName h ins mk uLower] by (simp add: Stop_def Start_def)

text \<open>
  The theorem with \<open>a\<close> held, through a stop, a start and a press of \<open>b\<close>.
\<close>

theorem stop_start_keeps_pressedKeys_witness:
  "''a'' |\<in>| fmdom (pressedKeys
      (run noUnicodeLower mapKeyToName_linux [CallStart, keyDownAt 97 0] (NewHandler defaultHotkeys_linux)))
   \<and> list_all (\<lambda>i. \<not> releases mapKeyToName_linux ''a'' i)
        [CallStop, CallStart, keyDownAt 98 1, keyUpAt 98 2]
   \<and> ''a'' |\<in>| fmdom (pressedKeys
        (run noUnicodeLower mapKeyToName_linux [CallStop, CallStart, keyDownAt 98 1, keyUpAt 98 2]
          (run noUnicodeLower mapKeyToName_linux [CallStart, keyDownAt 97 0] (NewHandler defaultHotkeys_linux))))"
proof -
  have held: "''a'' |\<in>| fmdom (pressedKeys
      (run noUnicodeLower mapKeyToName_linux [CallStart, keyDownAt 97 0] (NewHandler defaultHotkeys_linux)))"
    by code_simp
  have kept: "list_all (\<lambda>i. \<not> releases mapKeyToName_linux ''a'' i)
        [CallStop, CallStart, keyDownAt 98 1, keyUpAt 98 2]"
    by code_simp
  then have "\<forall>i \<in> set [CallStop, CallStart, keyDownAt 98 1, keyUpAt 98 2].
         \<not> releases mapKeyToName_linux ''a'' i"
    by (simp only: list_all_iff)
  with held kept
    stop_start_keeps_pressedKeys [where keyName = "''a''" and uLower = noUnicodeLower
      and mk = mapKeyToName_linux
      and ins = "[CallStop, CallStart, keyDownAt 98 1, keyUpAt 98 2]"
      and h = "run noUnicodeLower mapKeyToName_linux [CallStart, keyDownAt 97 0] (NewHandler defaultHotkeys_linux)"]
  show ?thesis by blast
qed

text \<open>
  Claim C8 as it is written fails: \<open>a\<close> is not held in the new handler, its
  key-down arrives in the first activation, and after a stop and a start \<open>a\<close> is
  still held.
\<close>

theorem stale_key_counterexample:
  "''a'' |\<notin>| fmdom (pressedKeys (NewHandler defaultHotkeys_linux))
   \<and> ''a'' |\<in>| fmdom (pressedKeys (run noUnicodeLower mapKeyToName_linux
        [CallStart, keyDownAt 97 0, CallStop, CallStart] (NewHandler defaultHotkeys_linux)))
   \<and> hookRunning (run noUnicodeLower mapKeyToName_linux
        [CallStart, keyDownAt 97 0, CallStop, CallStart] (NewHandler defaultHotkeys_linux))"
  by code_simp

subsection \<open>The cooldown\<close>

text \<open>
  Claim C10. When a key-down finds a free key, no cooldown and a matching binding, the
  clock of the last action is set to the reading of \<open>time.Now()\<close>, also when the queue
  is full and the action is dropped; every key-down whose \<open>time.Since\<close> is less than
  100 ms after it then leaves the queue and the clock as they are.
\<close>

theorem cooldown_set_on_match:
  fixes uLower h keyName now now'
  defines "h1 \<equiv> h\<lparr>pressedKeys := fmupd keyName True (pressedKeys h)\<rparr>"
  defines "h' \<equiv> handleKeyDown uLower keyName now now' h"
  shows "\<not> isPressed h keyName \<and> \<not> time_Since now (lastActionTime h) < 100 * Millisecond
      \<and> checkCombos uLower h1 \<noteq> ActionNone \<longrightarrow>
    lastActionTime h' = now'
    \<and> (cap (actionChan h) \<le> length (buf (actionChan h)) \<longrightarrow> actionChan h' = actionChan h)
    \<and> (\<forall>keyName2 t t'. time_Since t now' < 100 * Millisecond \<longrightarrow>
          actionChan (handleKeyDown uLower keyName2 t t' h') = actionChan h'
          \<and> lastActionTime (handleKeyDown uLower keyName2 t t' h') = now')"
proof (intro impI)
  assume a: "\<not> isPressed h keyName \<and> \<not> time_Since now (lastActionTime h) < 100 * Millisecond
      \<and> checkCombos uLower h1 \<noteq> ActionNone"
  then have last: "lastActionTime h' = now'"
    unfolding h'_def h1_def by (simp add: handleKeyDown_def Let_def)
  moreover have "actionChan h' = actionChan h" if "cap (actionChan h) \<le> length (buf (actionChan h))"
    unfolding h'_def using that by (rule handleKeyDown_full)
  moreover have "actionChan (handleKeyDown uLower keyName2 t t' h') = actionChan h'
          \<and> lastActionTime (handleKeyDown uLower keyName2 t t' h') = now'"
    if "time_Since t now' < 100 * Millisecond" for keyName2 t t'
    using handleKeyDown_cooldown [where t = t and h = h' and keyName = keyName2 and t' = t' and uLower = uLower] that last by (simp add: time_Since_less)
  ultimately show "lastActionTime h' = now'
    \<and> (cap (actionChan h) \<le> length (buf (actionChan h)) \<longrightarrow> actionChan h' = actionChan h)
    \<and> (\<forall>keyName2 t t'. time_Since t now' < 100 * Millisecond \<longrightarrow>
          actionChan (handleKeyDown uLower keyName2 t t' h') = actionChan h'
          \<and> lastActionTime (handleKeyDown uLower keyName2 t t' h') = now')"
    by blast
qed

text \<open>
  The theorem at \<open>fullQueue\<close>, with numpad Add pressed at 2200 ms and numpad 2 at 2250 ms.
\<close>

theorem cooldown_set_on_match_witness:
  "\<not> isPressed fullQueue ''NumpadAdd''
   \<and> \<not> time_Since (2200 * Millisecond) (lastActionTime fullQueue) < 100 * Millisecond
   \<and> checkCombos noUnicodeLower (fullQueue\<lparr>pressedKeys := fmupd ''NumpadAdd'' True (pressedKeys fullQueue)\<rparr>)
       \<noteq> ActionNone
   \<and> cap (actionChan fullQueue) \<le> length (buf (actionChan fullQueue))
   \<and> lastActionTime (handleKeyDown noUnicodeLower ''NumpadAdd'' (2200 * Millisecond) (2201 * Millisecond) fullQueue)
       = 2201 * Millisecond
   \<and> actionChan (handleKeyDown noUnicodeLower ''NumpadAdd'' (2200 * Millisecond) (2201 * Millisecond) fullQueue)
       = actionChan fullQueue
   \<and> time_Since (2250 * Millisecond) (2201 * Millisecond) < 100 * Millisecond
   \<and> lastActionTime (handleKeyDown noUnicodeLower ''Numpad2'' (2250 * Millisecond) (2250 * Millisecond)
        (handleKeyDown noUnicodeLower ''NumpadAdd'' (2200 * Millisecond) (2201 * Millisecond) fullQueue))
       = 2201 * Millisecond"
proof -
  have hyp: "\<not> isPressed fullQueue ''NumpadAdd''
   \<and> \<not> time_Since (2200 * Millisecond) (lastActionTime fullQueue) < 100 * Millisecond
   \<and> checkCombos noUnicodeLower (fullQueue\<lparr>pressedKeys := fmupd ''NumpadAdd'' True (pressedKeys fullQueue)\<rparr>)
       \<noteq> ActionNone"
    by code_simp
  have full: "cap (actionChan fullQueue) \<le> length (buf (actionChan fullQueue))"
    by code_simp
  have soon: "time_Since (2250 * Millisecond) (2201 * Millisecond) < 100 * Millisecond"
    by code_simp
  from cooldown_set_on_match [where uLower = noUnicodeLower
      and h = fullQueue and keyName = "''NumpadAdd''"
      and now = "2200 * Millisecond" and now' = "2201 * Millisecond"] hyp full soon
  show ?thesis by blast
qed

text \<open>
  What a key-down, and a step of the hook, do to the clock of the last action and to the buffer.
\<close>

lemma handleKeyDown_clock:
  fixes h :: Handler and uLower keyName now now'
  assumes "lastActionTime h \<le> now" and "now \<le> now'"
  defines "h' \<equiv> handleKeyDown uLower keyName now now' h"
  shows "lastActionTime h \<le> lastActionTime h' \<and> lastActionTime h' \<le> now'
    \<and> (length (buf (actionChan h)) < length (buf (actionChan h')) \<longrightarrow>
         lastActionTime h' = now' \<and> lastActionTime h + 100 * Millisecond \<le> now')"
  using handleKeyDown_cases [where h = h and keyName = keyName and now = now and now' = now' and uLower = uLower] assms(1,2) unfolding h'_def
  by auto

lemma step_clock:
  fixes h :: Handler and uLower mk ev now now'
  assumes "lastActionTime h \<le> now" and "now \<le> now'"
  defines "h' \<equiv> step uLower mk (HookEvent ev now now') h"
  shows "lastActionTime h \<le> lastActionTime h' \<and> lastActionTime h' \<le> now'
    \<and> (length (buf (actionChan h)) < length (buf (actionChan h')) \<longrightarrow>
         lastActionTime h' = now' \<and> lastActionTime h + 100 * Millisecond \<le> now')"
proof (cases "hookRunning h \<and> mk ev \<noteq> [] \<and> Kind ev = KeyDown")
  case True
  then have "h' = handleKeyDown uLower (mk ev) now now' h"
    by (simp add: h'_def processEvent_def)
  with handleKeyDown_clock [OF assms(1,2), of uLower "mk ev"] show ?thesis by simp
next
  case False
  then have "lastActionTime h' = lastActionTime h \<and> actionChan h' = actionChan h"
    by (cases "Kind ev") (auto simp: h'_def processEvent_def Let_def handleKeyUp_def)
  with assms(1,2) show ?thesis by simp
qed

lemma step_other:
  assumes "\<And>ev now now'. i \<noteq> HookEvent ev now now'"
  shows "lastActionTime (step uLower mk i h) = lastActionTime h"
    and "length (buf (actionChan (step uLower mk i h))) \<le> length (buf (actionChan h))"
  using assms
  by (cases i; auto simp: Start_def Stop_def UpdateBindings_def receive_def
        split: option.splits list.splits)+

lemma emissionTimes_Cons:
  "emissionTimes uLower mk (i # ins) h =
     (if length (buf (actionChan h)) < length (buf (actionChan (step uLower mk i h)))
      then [lastActionTime (step uLower mk i h)] else [])
     @ emissionTimes uLower mk ins (step uLower mk i h)"
  by (simp add: Let_def)

text \<open>
  Every step keeps the clock of the last action at or below the latest reading, never
  moves it back, and moves it forward by 100 ms at least when it emits.
\<close>

lemma step_spacing:
  fixes h :: Handler and uLower mk i ins t
  assumes "lastActionTime h \<le> t" and "clockMonotone t (i # ins)"
  defines "h' \<equiv> step uLower mk i h"
  shows "\<exists>t'. lastActionTime h' \<le> t' \<and> clockMonotone t' ins"
    and "lastActionTime h \<le> lastActionTime h'"
    and "length (buf (actionChan h)) < length (buf (actionChan h')) \<longrightarrow>
         lastActionTime h + 100 * Millisecond \<le> lastActionTime h'"
proof -
  have "(\<exists>t'. lastActionTime h' \<le> t' \<and> clockMonotone t' ins)
    \<and> lastActionTime h \<le> lastActionTime h'
    \<and> (length (buf (actionChan h)) < length (buf (actionChan h')) \<longrightarrow>
         lastActionTime h + 100 * Millisecond \<le> lastActionTime h')"
  proof (cases "\<exists>ev now now'. i = HookEvent ev now now'")
    case True
    then obtain ev now now' where i: "i = HookEvent ev now now'" by blast
    with assms(1,2) have le: "lastActionTime h \<le> now" "now \<le> now'"
      and mono: "clockMonotone now' ins"
      by auto
    from step_clock [OF le, of uLower mk ev] mono show ?thesis
      unfolding h'_def i by auto
  next
    case False
    then have "\<And>ev now now'. i \<noteq> HookEvent ev now now'" by blast
    from step_other [OF this, of uLower mk h] False assms(1,2) show ?thesis
      unfolding h'_def by (cases i) auto
  qed
  then show "\<exists>t'. lastActionTime h' \<le> t' \<and> clockMonotone t' ins"
    and "lastActionTime h \<le> lastActionTime h'"
    and "length (buf (actionChan h)) < length (buf (actionChan h')) \<longrightarrow>
         lastActionTime h + 100 * Millisecond \<le> lastActionTime h'"
    by blast+
qed

lemma emissionTimes_spaced:
  "lastActionTime h \<le> t \<Longrightarrow> clockMonotone t ins \<Longrightarrow>
   (\<forall>e \<in> set (emissionTimes uLower mk ins h). lastActionTime h + 100 * Millisecond \<le> e)
   \<and> sorted_wrt (\<lambda>a b. 100 * Millisecond \<le> b - a) (emissionTimes uLower mk ins h)"
proof (induction ins arbitrary: h t)
  case Nil
  then show ?case by simp
next
  case (Cons i ins)
  define h' where "h' = step uLower mk i h"
  note st = step_spacing [OF Cons.prems, of uLower mk, folded h'_def]
  from st(1) obtain t' where "lastActionTime h' \<le> t'" "clockMonotone t' ins" by blast
  from Cons.IH [OF this]
  have IH: "\<forall>e \<in> set (emissionTimes uLower mk ins h'). lastActionTime h' + 100 * Millisecond \<le> e"
    "sorted_wrt (\<lambda>a b. 100 * Millisecond \<le> b - a) (emissionTimes uLower mk ins h')"
    by auto
  from IH(1) st(2)
  have later: "\<forall>e \<in> set (emissionTimes uLower mk ins h'). lastActionTime h + 100 * Millisecond \<le> e"
    by fastforce
  from IH(1)
  have after: "\<forall>e \<in> set (emissionTimes uLower mk ins h'). 100 * Millisecond \<le> e - lastActionTime h'"
    by fastforce
  show ?case
    unfolding emissionTimes_Cons h'_def [symmetric]
    using IH(2) later after st(3) by simp
qed

text \<open>
  Claim C2. On a clock that does not run backwards, any two emissions of a run are at
  least 100 ms apart. A key-down read less than 100 ms after the last action leaves its
  key in the held-key set and changes neither the queue nor the clock: the handler is
  unchanged, or changed in the held-key set only, whatever the bindings are.
\<close>

theorem cooldown_spacing:
  fixes uLower mk ins h keyName now now'
  defines "ts \<equiv> emissionTimes uLower mk ins h"
  defines "h' \<equiv> handleKeyDown uLower keyName now now' h"
  shows "(clockMonotone (lastActionTime h) ins \<longrightarrow>
            (\<forall>i j. i < j \<and> j < length ts \<longrightarrow> 100 * Millisecond \<le> ts ! j - ts ! i))
    \<and> (time_Since now (lastActionTime h) < 100 * Millisecond \<longrightarrow>
          keyName |\<in>| fmdom (pressedKeys h')
          \<and> actionChan h' = actionChan h \<and> lastActionTime h' = lastActionTime h
          \<and> (h' = h \<or> h' = h\<lparr>pressedKeys := fmupd keyName True (pressedKeys h)\<rparr>))"
proof -
  have "100 * Millisecond \<le> ts ! j - ts ! i"
    if "clockMonotone (lastActionTime h) ins" "i < j" "j < length ts" for i j
  proof -
    from emissionTimes_spaced [OF order_refl that(1), of uLower mk]
    have "sorted_wrt (\<lambda>a b. 100 * Millisecond \<le> b - a) ts"
      unfolding ts_def by simp
    with that(2,3) show ?thesis by (simp add: sorted_wrt_iff_nth_less)
  qed
  moreover have "keyName |\<in>| fmdom (pressedKeys h')
          \<and> actionChan h' = actionChan h \<and> lastActionTime h' = lastActionTime h
          \<and> (h' = h \<or> h' = h\<lparr>pressedKeys := fmupd keyName True (pressedKeys h)\<rparr>)"
    if "time_Since now (lastActionTime h) < 100 * Millisecond"
    using handleKeyDown_cooldown [where t = now and h = h and keyName = keyName and t' = now' and uLower = uLower] that
    unfolding h'_def by (simp add: time_Since_less)
  ultimately show ?thesis by blast
qed

text \<open>
  The theorem at \<open>threeCombos\<close>: emissions at 1010 ms and 1200 ms, and the match at
  1050 ms swallowed.
\<close>

theorem cooldown_spacing_witness:
  "clockMonotone (lastActionTime (NewHandler defaultHotkeys_linux)) threeCombos
   \<and> emissionTimes noUnicodeLower mapKeyToName_linux threeCombos (NewHandler defaultHotkeys_linux)
       = [1010 * Millisecond, 1200 * Millisecond]
   \<and> 100 * Millisecond
       \<le> emissionTimes noUnicodeLower mapKeyToName_linux threeCombos (NewHandler defaultHotkeys_linux) ! 1
         - emissionTimes noUnicodeLower mapKeyToName_linux threeCombos (NewHandler defaultHotkeys_linux) ! 0
   \<and> time_Since (1050 * Millisecond)
        (lastActionTime (run noUnicodeLower mapKeyToName_linux (take 6 threeCombos) (NewHandler defaultHotkeys_linux)))
       < 100 * Millisecond
   \<and> ''NumpadAdd'' |\<in>| fmdom (pressedKeys
        (handleKeyDown noUnicodeLower ''NumpadAdd'' (1050 * Millisecond) (1050 * Millisecond)
          (run noUnicodeLower mapKeyToName_linux (take 6 threeCombos) (NewHandler defaultHotkeys_linux))))
   \<and> actionChan
        (handleKeyDown noUnicodeLower ''NumpadAdd'' (1050 * Millisecond) (1050 * Millisecond)
          (run noUnicodeLower mapKeyToName_linux (take 6 threeCombos) (NewHandler defaultHotkeys_linux)))
       = actionChan (run noUnicodeLower mapKeyToName_linux (take 6 threeCombos) (NewHandler defaultHotkeys_linux))"
proof -
  have mono: "clockMonotone (lastActionTime (NewHandler defaultHotkeys_linux)) threeCombos"
    by code_simp
  have times: "emissionTimes noUnicodeLower mapKeyToName_linux threeCombos (NewHandler defaultHotkeys_linux)
       = [1010 * Millisecond, 1200 * Millisecond]"
    by code_simp
  have cool: "time_Since (1050 * Millisecond)
        (lastActionTime (run noUnicodeLower mapKeyToName_linux (take 6 threeCombos) (NewHandler defaultHotkeys_linux)))
       < 100 * Millisecond"
    by code_simp
  from times have len: "(0::nat) < 1 \<and>
      1 < length (emissionTimes noUnicodeLower mapKeyToName_linux threeCombos (NewHandler defaultHotkeys_linux))"
    by simp
  from mono len
    cooldown_spacing [where uLower = noUnicodeLower
      and mk = mapKeyToName_linux and ins = threeCombos
      and h = "NewHandler defaultHotkeys_linux"]
  have "100 * Millisecond
       \<le> emissionTimes noUnicodeLower mapKeyToName_linux threeCombos (NewHandler defaultHotkeys_linux) ! 1
         - emissionTimes noUnicodeLower mapKeyToName_linux threeCombos (NewHandler defaultHotkeys_linux) ! 0"
    by blast
  moreover from cool
    cooldown_spacing [where uLower = noUnicodeLower
      and h = "run noUnicodeLower mapKeyToName_linux (take 6 threeCombos) (NewHandler defaultHotkeys_linux)"
      and keyName = "''NumpadAdd''" and now = "1050 * Millisecond" and now' = "1050 * Millisecond"]
  have "''NumpadAdd'' |\<in>| fmdom (pressedKeys
        (handleKeyDown noUnicodeLower ''NumpadAdd'' (1050 * Millisecond) (1050 * Millisecond)
          (run noUnicodeLower mapKeyToName_linux (take 6 threeCombos) (NewHandler defaultHotkeys_linux))))
   \<and> actionChan
        (handleKeyDown noUnicodeLower ''NumpadAdd'' (1050 * Millisecond) (1050 * Millisecond)
          (run noUnicodeLower mapKeyToName_linux (take 6 threeCombos) (NewHandler defaultHotkeys_linux)))
       = actionChan (run noUnicodeLower mapKeyToName_linux (take 6 threeCombos) (NewHandler defaultHotkeys_linux))"
    by blast
  ultimately show ?thesis using mono times cool by blast
qed

end
